theory Spec2Isabelle
  imports Main
begin

section \<open>Data model\<close>

text \<open>
  The server (\<^verbatim>\<open>server/app.ts\<close>) keeps two module variables, \<^verbatim>\<open>blockchain\<close> and
  \<^verbatim>\<open>information\<close>, and one constant \<^verbatim>\<open>verifier\<close> built from \<^verbatim>\<open>SECRET_KEY\<close>. The classes
  \<^verbatim>\<open>Verifier\<close>, \<^verbatim>\<open>Block\<close> and \<^verbatim>\<open>Status\<close> are imported from \<^verbatim>\<open>./lib\<close>, a compiled
  artifact whose source is not part of the repository's source files.

  The digest and the keyed authentication code are left abstract: \<open>'h\<close> is the type of
  digests and \<open>'s\<close> the type of authentication codes.
\<close>

text \<open>
  \<^verbatim>\<open>enum Status { Recovered = 0, Valid = 1, Tampered = 2 }\<close> of \<^verbatim>\<open>client/src/App.tsx\<close>.
\<close>

datatype Status = Recovered | Valid | Tampered

fun Status_ordinal :: "Status \<Rightarrow> nat" where
  "Status_ordinal Recovered = 0"
| "Status_ordinal Valid = 1"
| "Status_ordinal Tampered = 2"

text \<open>
  \<^verbatim>\<open>getStatusColor\<close> of the client: a \<^verbatim>\<open>switch\<close> over the number received in the JSON
  body, with a \<^verbatim>\<open>default\<close> branch for a number that is none of the three.
\<close>

definition getStatusColor :: "nat \<Rightarrow> string" where
  "getStatusColor status =
     (if status = Status_ordinal Recovered then ''bg-green-100 border-green-500''
      else if status = Status_ordinal Valid then ''bg-blue-100 border-blue-500''
      else if status = Status_ordinal Tampered then ''bg-red-100 border-red-500''
      else ''bg-gray-100 border-gray-500'')"

text \<open>
  Modelled from the spec: the class \<^verbatim>\<open>Block\<close> of \<^verbatim>\<open>./lib\<close>. The server reads and writes
  its field \<^verbatim>\<open>data\<close>; the other fields are those of the specification's data model.
\<close>

record ('h, 's) block =
  index :: nat
  timestamp :: nat
  data :: string
  previousHash :: 'h
  hash :: 'h
  signature :: 's

text \<open>
  An element of the array returned by \<^verbatim>\<open>verifier.information\<close>: the server reads its
  fields \<^verbatim>\<open>block\<close> and \<^verbatim>\<open>status\<close>.
\<close>

record ('h, 's) blockInfo =
  block :: "('h, 's) block"
  status :: Status

text \<open>
  Modelled from the spec: the class \<^verbatim>\<open>Verifier\<close> of \<^verbatim>\<open>./lib\<close>, which holds exactly one
  secret and nothing else.
\<close>

record verifier =
  secret :: string

text \<open>
  Modelled from the spec: the errors of the core. The specification names the two kinds
  and fixes no message text; \<open>toString\<close> renders the kind.
\<close>

datatype error = InvalidInputError | MalformedChainError

fun toString :: "error \<Rightarrow> string" where
  "toString InvalidInputError = ''InvalidInputError''"
| "toString MalformedChainError = ''MalformedChainError''"

section \<open>The server\<close>

definition SECRET_KEY :: string where
  "SECRET_KEY = ''some-super-seekrit-key''"

definition the_verifier :: verifier where
  "the_verifier = \<lparr>secret = SECRET_KEY\<rparr>"

text \<open>
  An element of the exposed array \<^verbatim>\<open>information\<close> is the object
  \<^verbatim>\<open>{ data, status }\<close>, a pair here. The stored state is the pair of module variables.
  The blocks handed out by \<^verbatim>\<open>./lib\<close> are fresh objects, so no two entries of
  \<^verbatim>\<open>blockchain\<close> share an object and the array is a list of values.
\<close>

type_synonym info = "string \<times> Status"

record ('h, 's) state =
  blockchain :: "('h, 's) block list"
  information :: "info list"

text \<open>
  A response is the HTTP status code together with the JSON body. \<^verbatim>\<open>res.json\<close> without
  \<^verbatim>\<open>res.status\<close> answers 200.
\<close>

datatype ('h, 's) body =
    Success
  | SuccessBlock "('h, 's) block"
  | SuccessInformation "info list"
  | Failure string

datatype ('h, 's) response = Response nat "('h, 's) body"

text \<open>
  The two methods of the verifier are parameters of the handlers: \<open>create_block\<close> receives
  the verifier, the time at which it runs and the data; \<open>inspect_chain\<close> (the method
  \<^verbatim>\<open>information\<close>) receives the verifier and the stored chain. A method that throws
  returns \<open>Inl\<close>.
\<close>

definition api_create ::
  "(verifier \<Rightarrow> nat \<Rightarrow> string \<Rightarrow> error + ('h, 's) block) \<Rightarrow> nat \<Rightarrow>
   ('h, 's) state \<Rightarrow> string \<Rightarrow> ('h, 's) state \<times> ('h, 's) response" where
  "api_create create_block now st d =
     (case create_block the_verifier now d of
        Inr newBlock \<Rightarrow>
          (st\<lparr>blockchain := blockchain st @ [newBlock]\<rparr>, Response 200 (SuccessBlock newBlock))
      | Inl e \<Rightarrow> (st, Response 400 (Failure (toString e))))"

definition api_information ::
  "(verifier \<Rightarrow> ('h, 's) block list \<Rightarrow> error + ('h, 's) blockInfo list) \<Rightarrow>
   ('h, 's) state \<Rightarrow> ('h, 's) state \<times> ('h, 's) response" where
  "api_information inspect_chain st =
     (if length (blockchain st) = 0 then (st, Response 404 (Failure ''No blocks found''))
      else
        (case inspect_chain the_verifier (blockchain st) of
           Inr out \<Rightarrow>
             (let state = rev out;
                  information' = map (\<lambda>blockInfo. (data (block blockInfo), status blockInfo)) state;
                  blockchain' = map (\<lambda>blockInfo. block blockInfo) state
              in (st\<lparr>information := information', blockchain := blockchain'\<rparr>,
                  Response 200 (SuccessInformation information')))
         | Inl e \<Rightarrow> (st, Response 400 (Failure (toString e)))))"

text \<open>
  \<^verbatim>\<open>POST /api/tamper\<close>. The index is an integer here; the handler's guard is the
  comparison of the source, and inside the guard the index is a position of the array.
\<close>

definition api_tamper ::
  "('h, 's) state \<Rightarrow> int \<Rightarrow> string \<Rightarrow> ('h, 's) state \<times> ('h, 's) response" where
  "api_tamper st i newData =
     (if i < 0 \<or> i \<ge> int (length (blockchain st))
      then (st, Response 400 (Failure ''Invalid block index''))
      else
        (let tamperedBlock = (blockchain st ! nat i)\<lparr>data := newData\<rparr>
         in (st\<lparr>blockchain := (blockchain st)[nat i := tamperedBlock]\<rparr>, Response 200 Success)))"

section \<open>The verifier\<close>

text \<open>
  Modelled from the spec: the primitives and the configuration of the core, which live in
  \<^verbatim>\<open>./lib\<close>. \<open>Digest\<close> takes index, timestamp, data and previous hash; \<open>KeyedMAC\<close> takes
  the secret and a digest; \<open>sentinel\<close> is the previous hash of the genesis block;
  \<open>maxDataSize\<close> is the size bound of the acceptance policy.
\<close>

record ('h, 's) config =
  Digest :: "nat \<Rightarrow> nat \<Rightarrow> string \<Rightarrow> 'h \<Rightarrow> 'h"
  KeyedMAC :: "string \<Rightarrow> 'h \<Rightarrow> 's"
  sentinel :: 'h
  maxDataSize :: nat

text \<open>
  Modelled from the spec: the Block Factory \<^verbatim>\<open>createBlock(priorBlock, data)\<close> of
  \<^verbatim>\<open>./lib\<close> (section 4.1). The current time is the argument \<open>now\<close>.
\<close>

definition createBlock ::
  "('h, 's) config \<Rightarrow> verifier \<Rightarrow> ('h, 's) block option \<Rightarrow> nat \<Rightarrow> string \<Rightarrow>
   error + ('h, 's) block" where
  "createBlock cfg v priorBlock now d =
     (if d = [] \<or> maxDataSize cfg < length d then Inl InvalidInputError
      else
        (let i = (case priorBlock of None \<Rightarrow> 0 | Some p \<Rightarrow> index p + 1);
             ph = (case priorBlock of None \<Rightarrow> sentinel cfg | Some p \<Rightarrow> hash p);
             h = Digest cfg i now d ph
         in Inr \<lparr>index = i, timestamp = now, data = d, previousHash = ph, hash = h,
                 signature = KeyedMAC cfg (secret v) h\<rparr>))"

text \<open>
  Modelled from the spec: the Chain Inspector \<^verbatim>\<open>inspect(chain)\<close> of \<^verbatim>\<open>./lib\<close>
  (section 4.2): the self-consistency check of step 3a, the repair of step 3c, the forward
  pass \<open>walk\<close> carrying \<open>expectedPreviousHash\<close>, and the structural precondition on the
  indices.
\<close>

definition selfIntact :: "('h, 's) config \<Rightarrow> verifier \<Rightarrow> ('h, 's) block \<Rightarrow> bool" where
  "selfIntact cfg v b =
     (let hash' = Digest cfg (index b) (timestamp b) (data b) (previousHash b);
          signature' = KeyedMAC cfg (secret v) hash'
      in hash' = hash b \<and> signature' = signature b)"

definition repair :: "('h, 's) config \<Rightarrow> verifier \<Rightarrow> 'h \<Rightarrow> ('h, 's) block \<Rightarrow> ('h, 's) block" where
  "repair cfg v expectedPreviousHash b =
     (let h = Digest cfg (index b) (timestamp b) (data b) expectedPreviousHash
      in b\<lparr>previousHash := expectedPreviousHash, hash := h,
            signature := KeyedMAC cfg (secret v) h\<rparr>)"

fun walk ::
  "('h, 's) config \<Rightarrow> verifier \<Rightarrow> 'h \<Rightarrow> ('h, 's) block list \<Rightarrow> ('h, 's) blockInfo list" where
  "walk cfg v expectedPreviousHash [] = []"
| "walk cfg v expectedPreviousHash (b # bs) =
     (if selfIntact cfg v b \<and> previousHash b = expectedPreviousHash
      then \<lparr>block = b, status = Valid\<rparr> # walk cfg v (hash b) bs
      else if \<not> selfIntact cfg v b
      then \<lparr>block = repair cfg v expectedPreviousHash b, status = Tampered\<rparr>
             # walk cfg v (hash (repair cfg v expectedPreviousHash b)) bs
      else \<lparr>block = repair cfg v expectedPreviousHash b, status = Recovered\<rparr>
             # walk cfg v (hash (repair cfg v expectedPreviousHash b)) bs)"

definition inspect ::
  "('h, 's) config \<Rightarrow> verifier \<Rightarrow> ('h, 's) block list \<Rightarrow> error + ('h, 's) blockInfo list" where
  "inspect cfg v chain =
     (if map index chain = [0..<length chain] then Inr (walk cfg v (sentinel cfg) chain)
      else Inl MalformedChainError)"

text \<open>
  \<^verbatim>\<open>inspect(inspect(chain))\<close>: the inspector applied to the block sequence of its own
  output.
\<close>

definition reinspect ::
  "('h, 's) config \<Rightarrow> verifier \<Rightarrow> ('h, 's) block list \<Rightarrow> error + ('h, 's) blockInfo list" where
  "reinspect cfg v chain =
     (case inspect cfg v chain of
        Inr out \<Rightarrow> inspect cfg v (map block out)
      | Inl e \<Rightarrow> Inl e)"

text \<open>
  Modelled from the spec: the method \<^verbatim>\<open>create_block(data)\<close> of \<^verbatim>\<open>./lib\<close>, as the server
  calls it. The call site passes the data alone and the verifier retains no chain, so no
  prior block reaches the factory.
\<close>

definition create_block_method ::
  "('h, 's) config \<Rightarrow> verifier \<Rightarrow> nat \<Rightarrow> string \<Rightarrow> error + ('h, 's) block" where
  "create_block_method cfg v now d = createBlock cfg v None now d"

text \<open>
  Modelled from the spec: the chain invariant of section 3 (indices contiguous from the
  start, every block linked to its predecessor, hash and signature those of the factory),
  stated from a position \<open>i\<close> with expected previous hash \<open>e\<close>.
\<close>

fun linked :: "('h, 's) config \<Rightarrow> verifier \<Rightarrow> nat \<Rightarrow> 'h \<Rightarrow> ('h, 's) block list \<Rightarrow> bool" where
  "linked cfg v i e [] = True"
| "linked cfg v i e (b # bs) =
     (index b = i \<and> previousHash b = e \<and> selfIntact cfg v b \<and> linked cfg v (Suc i) (hash b) bs)"

definition valid_chain :: "('h, 's) config \<Rightarrow> verifier \<Rightarrow> ('h, 's) block list \<Rightarrow> bool" where
  "valid_chain cfg v chain = linked cfg v 0 (sentinel cfg) chain"

text \<open>
  Collision resistance of the digest, idealised: distinct inputs have distinct digests.
\<close>

definition collision_free :: "('h, 's) config \<Rightarrow> bool" where
  "collision_free cfg =
     (\<forall>i t d p i' t' d' p'.
        Digest cfg i t d p = Digest cfg i' t' d' p' \<longrightarrow> i = i' \<and> t = t' \<and> d = d' \<and> p = p')"

text \<open>
  A symbolic instance of the primitives, for running the model on concrete chains: a
  digest is the term of its inputs and an authentication code the term of key and digest.
\<close>

datatype sym_hash = Zero | H nat nat string sym_hash

datatype sym_mac = Mac string sym_hash

definition sym :: "(sym_hash, sym_mac) config" where
  "sym = \<lparr>Digest = H, KeyedMAC = Mac, sentinel = Zero, maxDataSize = 1024\<rparr>"

text \<open>
  The caller contract of section 6 for building a chain: the factory is invoked with the
  current tail (or none) and its block is appended.
\<close>

definition extend ::
  "('h, 's) config \<Rightarrow> verifier \<Rightarrow> nat \<Rightarrow> string \<Rightarrow> ('h, 's) block list \<Rightarrow> ('h, 's) block list" where
  "extend cfg v now d chain =
     (case createBlock cfg v (if chain = [] then None else Some (last chain)) now d of
        Inr b \<Rightarrow> chain @ [b]
      | Inl e \<Rightarrow> chain)"

text \<open>In-place mutation of the data of block \<open>k\<close>, as the tamper handler performs it.\<close>

definition mutate :: "nat \<Rightarrow> string \<Rightarrow> ('h, 's) block list \<Rightarrow> ('h, 's) block list" where
  "mutate k newData chain = chain[k := (chain ! k)\<lparr>data := newData\<rparr>]"

text \<open>The statuses of an inspection result, in order.\<close>

definition statuses :: "error + ('h, 's) blockInfo list \<Rightarrow> error + Status list" where
  "statuses r = (case r of Inr out \<Rightarrow> Inr (map status out) | Inl e \<Rightarrow> Inl e)"


text \<open>
  The chain of the concrete scenario: three blocks with data \<open>a\<close>, \<open>b\<close>, \<open>c\<close>, created at
  times 1, 2, 3 under the server's verifier.
\<close>

definition chain_abc :: "(sym_hash, sym_mac) block list" where
  "chain_abc =
     extend sym the_verifier 3 ''c''
       (extend sym the_verifier 2 ''b'' (extend sym the_verifier 1 ''a'' []))"

text \<open>
  Modelled from the spec: the enum \<^verbatim>\<open>Status\<close> of \<^verbatim>\<open>./lib\<close> as the server writes it
  into a JSON body. The enumeration is the one of section 6, in its order, and the number of
  a value is its position in it.
\<close>

definition Status_enumeration :: "Status list" where
  "Status_enumeration = [Recovered, Valid, Tampered]"

fun position :: "'a \<Rightarrow> 'a list \<Rightarrow> nat" where
  "position x [] = 0"
| "position x (y # ys) = (if x = y then 0 else Suc (position x ys))"

definition wire_ordinal :: "Status \<Rightarrow> nat" where
  "wire_ordinal s = position s Status_enumeration"

text \<open>
  The array \<^verbatim>\<open>information\<close> of a successful response as it is on the wire: \<^verbatim>\<open>res.json\<close>
  writes the data string and the number of the status.
\<close>

definition wire_information :: "info list \<Rightarrow> (string \<times> nat) list" where
  "wire_information infos = map (\<lambda>(d, s). (d, wire_ordinal s)) infos"

text \<open>
  \<^verbatim>\<open>fetchInformation\<close> of the client: when the response carries \<^verbatim>\<open>information\<close>, the
  client's list of blocks is that array; otherwise nothing is set.
\<close>

definition fetchInformation :: "('h, 's) response \<Rightarrow> (string \<times> nat) list option" where
  "fetchInformation r =
     (case r of
        Response c (SuccessInformation infos) \<Rightarrow> Some (wire_information infos)
      | Response c other \<Rightarrow> None)"

text \<open>
  The status a number denotes under the client's enum declaration, tried in the order of
  the \<^verbatim>\<open>switch\<close> of \<^verbatim>\<open>getStatusColor\<close>.
\<close>

definition Status_of_ordinal :: "nat \<Rightarrow> Status option" where
  "Status_of_ordinal n =
     (if n = Status_ordinal Recovered then Some Recovered
      else if n = Status_ordinal Valid then Some Valid
      else if n = Status_ordinal Tampered then Some Tampered
      else None)"










section \<open>Properties of the inspector\<close>

lemma walk_linked: "linked cfg v i e chain \<Longrightarrow> walk cfg v e chain = map (\<lambda>b. \<lparr>block = b, status = Valid\<rparr>) chain"
  by (induction chain arbitrary: i e) auto

lemma walk_length: "length (walk cfg v e chain) = length chain"
  by (induction chain arbitrary: e) auto

lemma walk_index: "map (\<lambda>bi. index (block bi)) (walk cfg v e chain) = map index chain"
  by (induction chain arbitrary: e) (auto simp: repair_def Let_def)

lemma walk_data: "map (\<lambda>bi. data (block bi)) (walk cfg v e chain) = map data chain"
  by (induction chain arbitrary: e) (auto simp: repair_def Let_def)

lemma selfIntact_repair: "selfIntact cfg v (repair cfg v e b)"
  by (simp add: selfIntact_def repair_def Let_def)

lemma upt_shift: "[i..<Suc (i + n)] = i # [Suc i..<Suc (i + n)]"
  by (simp add: upt_conv_Cons del: upt_Suc)

lemma walk_output_linked:
  "map index chain = [i..<i + length chain] \<Longrightarrow> linked cfg v i e (map block (walk cfg v e chain))"
proof (induction chain arbitrary: i e)
  case Nil
  then show ?case by simp
next
  case (Cons b bs)
  from Cons.prems have ib: "index b = i" and rest: "map index bs = [Suc i..<Suc i + length bs]"
    by (simp_all add: upt_shift del: upt_Suc)
  show ?case
    using Cons.IH [OF rest] ib
    by (auto simp: selfIntact_repair) (simp_all add: repair_def Let_def)
qed


lemma linked_index: "linked cfg v i e chain \<Longrightarrow> map index chain = [i..<i + length chain]"
proof (induction chain arbitrary: i e)
  case Nil
  then show ?case by simp
next
  case (Cons b bs)
  from Cons.prems have ib: "index b = i" and rest: "linked cfg v (Suc i) (hash b) bs"
    by simp_all
  from Cons.IH [OF rest] ib show ?case
    by (simp add: upt_shift del: upt_Suc)
qed

lemma walk_broken_link:
  assumes cf: "collision_free cfg"
  shows "linked cfg v i e chain \<Longrightarrow> e' \<noteq> e \<Longrightarrow>
         map status (walk cfg v e' chain) = replicate (length chain) Recovered"
proof (induction chain arbitrary: i e e')
  case Nil
  then show ?case by simp
next
  case (Cons b bs)
  from Cons.prems have si: "selfIntact cfg v b" and ph: "previousHash b = e"
    and hb: "hash b = Digest cfg (index b) (timestamp b) (data b) e"
    and rest: "linked cfg v (Suc i) (hash b) bs"
    by (auto simp: selfIntact_def Let_def)
  have "hash (repair cfg v e' b) \<noteq> hash b"
    using cf Cons.prems(2) hb by (auto simp: repair_def Let_def collision_free_def)
  from Cons.IH [OF rest this] si ph Cons.prems(2) show ?case by simp
qed

lemma walk_mutate:
  assumes cf: "collision_free cfg"
  shows "linked cfg v i e chain \<Longrightarrow> k < length chain \<Longrightarrow> newData \<noteq> data (chain ! k) \<Longrightarrow>
         map status (walk cfg v e (mutate k newData chain)) =
           replicate k Valid @ Tampered # replicate (length chain - Suc k) Recovered"
proof (induction chain arbitrary: i e k)
  case Nil
  then show ?case by simp
next
  case (Cons b bs)
  from Cons.prems(1) have si: "selfIntact cfg v b" and ph: "previousHash b = e"
    and hb: "hash b = Digest cfg (index b) (timestamp b) (data b) e"
    and rest: "linked cfg v (Suc i) (hash b) bs"
    by (auto simp: selfIntact_def Let_def)
  show ?case
  proof (cases k)
    case 0
    let ?b' = "b\<lparr>data := newData\<rparr>"
    from Cons.prems(3) 0 have nd: "newData \<noteq> data b" by simp
    have nsi: "\<not> selfIntact cfg v ?b'"
      using cf nd hb ph by (auto simp: selfIntact_def Let_def collision_free_def)
    have "hash (repair cfg v e ?b') \<noteq> hash b"
      using cf nd hb by (auto simp: repair_def Let_def collision_free_def)
    from walk_broken_link [OF cf rest this] nsi 0 show ?thesis
      by (simp add: mutate_def)
  next
    case (Suc j)
    with Cons.prems have j: "j < length bs" and nd: "newData \<noteq> data (bs ! j)" by simp_all
    from Cons.IH [OF rest j nd] si ph Suc show ?thesis
      by (simp add: mutate_def)
  qed
qed

lemma chain_abc_blocks:
  "chain_abc =
     [\<lparr>index = 0, timestamp = 1, data = ''a'', previousHash = Zero, hash = H 0 1 ''a'' Zero,
        signature = Mac SECRET_KEY (H 0 1 ''a'' Zero)\<rparr>,
      \<lparr>index = 1, timestamp = 2, data = ''b'', previousHash = H 0 1 ''a'' Zero,
        hash = H 1 2 ''b'' (H 0 1 ''a'' Zero),
        signature = Mac SECRET_KEY (H 1 2 ''b'' (H 0 1 ''a'' Zero))\<rparr>,
      \<lparr>index = 2, timestamp = 3, data = ''c'', previousHash = H 1 2 ''b'' (H 0 1 ''a'' Zero),
        hash = H 2 3 ''c'' (H 1 2 ''b'' (H 0 1 ''a'' Zero)),
        signature = Mac SECRET_KEY (H 2 3 ''c'' (H 1 2 ''b'' (H 0 1 ''a'' Zero)))\<rparr>]"
  by (simp add: chain_abc_def extend_def createBlock_def sym_def the_verifier_def Let_def)

lemma collision_free_sym: "collision_free sym"
  by (simp add: collision_free_def sym_def)

lemma valid_chain_abc: "valid_chain sym the_verifier chain_abc"
  by (simp add: chain_abc_blocks valid_chain_def selfIntact_def sym_def the_verifier_def Let_def)

lemma linked_step:
  "linked cfg v i e chain \<Longrightarrow> Suc k < length chain \<Longrightarrow> previousHash (chain ! Suc k) = hash (chain ! k)"
proof (induction chain arbitrary: i e k)
  case Nil
  then show ?case by simp
next
  case (Cons b bs)
  from Cons.prems(1) have rest: "linked cfg v (Suc i) (hash b) bs" by simp
  show ?case
  proof (cases k)
    case 0
    with Cons.prems(2) rest show ?thesis by (cases bs) simp_all
  next
    case (Suc j)
    with Cons.prems(2) Cons.IH [OF rest, of j] show ?thesis by simp
  qed
qed

lemma walk_mutate_block:
  assumes cf: "collision_free cfg"
  shows "linked cfg v i e chain \<Longrightarrow> k < length chain \<Longrightarrow> newData \<noteq> data (chain ! k) \<Longrightarrow>
         block (walk cfg v e (mutate k newData chain) ! k) =
           repair cfg v (previousHash (chain ! k)) ((chain ! k)\<lparr>data := newData\<rparr>)"
proof (induction chain arbitrary: i e k)
  case Nil
  then show ?case by simp
next
  case (Cons b bs)
  from Cons.prems(1) have si: "selfIntact cfg v b" and ph: "previousHash b = e"
    and hb: "hash b = Digest cfg (index b) (timestamp b) (data b) e"
    and rest: "linked cfg v (Suc i) (hash b) bs"
    by (auto simp: selfIntact_def Let_def)
  show ?case
  proof (cases k)
    case 0
    from Cons.prems(3) 0 have nd: "newData \<noteq> data b" by simp
    have "\<not> selfIntact cfg v (b\<lparr>data := newData\<rparr>)"
      using cf nd hb ph by (auto simp: selfIntact_def Let_def collision_free_def)
    with 0 ph show ?thesis by (simp add: mutate_def)
  next
    case (Suc j)
    with Cons.prems have j: "j < length bs" and nd: "newData \<noteq> data (bs ! j)" by simp_all
    from Cons.IH [OF rest j nd] si ph Suc show ?thesis
      by (simp add: mutate_def)
  qed
qed

lemma mutate_index: "map index (mutate k newData chain) = map index chain"
  by (cases "k < length chain") (simp_all add: mutate_def map_update list_update_same_conv list_update_beyond)

lemma mutate_length: "length (mutate k newData chain) = length chain"
  by (simp add: mutate_def)

lemma inspect_chain_abc:
  "inspect sym the_verifier chain_abc = Inr (map (\<lambda>b. \<lparr>block = b, status = Valid\<rparr>) chain_abc)"
proof -
  have "linked sym the_verifier 0 (sentinel sym) chain_abc"
    using valid_chain_abc by (simp add: valid_chain_def)
  from walk_linked [OF this] linked_index [OF this] show ?thesis
    by (simp add: inspect_def)
qed

lemma length_chain_abc: "length chain_abc = 3"
  by (simp add: chain_abc_blocks)

lemma information_chain_abc:
  "api_information (inspect sym) \<lparr>blockchain = chain_abc, information = []\<rparr> =
     (\<lparr>blockchain = rev chain_abc, information = [(''c'', Valid), (''b'', Valid), (''a'', Valid)]\<rparr>,
      Response 200 (SuccessInformation [(''c'', Valid), (''b'', Valid), (''a'', Valid)]))"
proof -
  have "map (\<lambda>b. (data b, Valid)) (rev chain_abc) = [(''c'', Valid), (''b'', Valid), (''a'', Valid)]"
    by (simp add: chain_abc_blocks)
  then show ?thesis
    by (simp add: api_information_def inspect_chain_abc length_chain_abc Let_def rev_map comp_def)
qed

lemma inspect_rev_chain_abc: "inspect sym the_verifier (rev chain_abc) = Inl MalformedChainError"
  by (simp add: inspect_def chain_abc_blocks)

lemma extend_a:
  "extend sym the_verifier 1 ''a'' [] =
     [\<lparr>index = 0, timestamp = 1, data = ''a'', previousHash = Zero, hash = H 0 1 ''a'' Zero,
        signature = Mac SECRET_KEY (H 0 1 ''a'' Zero)\<rparr>]"
  by (simp add: extend_def createBlock_def sym_def the_verifier_def Let_def)


subsection \<open>The wire encoding\<close>

lemma wire_ordinal_values:
  "wire_ordinal Recovered = 0" "wire_ordinal Valid = 1" "wire_ordinal Tampered = 2"
  by (simp_all add: wire_ordinal_def Status_enumeration_def)

lemma wire_ordinal_client: "wire_ordinal s = Status_ordinal s"
  by (cases s) (simp_all add: wire_ordinal_values)

lemma decode_wire: "Status_of_ordinal (wire_ordinal s) = Some s"
  by (cases s) (simp_all add: wire_ordinal_values Status_of_ordinal_def)

subsection \<open>Independence of the key\<close>















section \<open>The information handler stores the reversed output (C1)\<close>

text \<open>
  Claim C1. For every non-empty stored chain on which the inspector returns, the handler of
  \<^verbatim>\<open>GET /api/information\<close> reverses the inspector's output and uses the reversed sequence
  both for the exposed array and for the stored chain: afterwards the stored blockchain is
  the reverse of the block sequence the inspector emitted, the stored information is the
  reverse of its data and status pairs, and the response carries that same array.
\<close>

theorem information_stores_reversed_output:
  assumes "blockchain st \<noteq> []"
    and "inspect_chain the_verifier (blockchain st) = Inr out"
  shows "api_information inspect_chain st =
           (\<lparr>blockchain = rev (map block out),
             information = rev (map (\<lambda>bi. (data (block bi), status bi)) out)\<rparr>,
            Response 200 (SuccessInformation (rev (map (\<lambda>bi. (data (block bi), status bi)) out))))"
  using assms by (simp add: api_information_def Let_def rev_map)

text \<open>
  On the stored chain \<open>a\<close>, \<open>b\<close>, \<open>c\<close> the handler stores the chain \<open>c\<close>, \<open>b\<close>, \<open>a\<close>.
\<close>

theorem information_stores_reversed_output_witness:
  "blockchain \<lparr>blockchain = chain_abc, information = []\<rparr> \<noteq> []
   \<and> inspect sym the_verifier (blockchain \<lparr>blockchain = chain_abc, information = []\<rparr>)
       = Inr (map (\<lambda>b. \<lparr>block = b, status = Valid\<rparr>) chain_abc)
   \<and> api_information (inspect sym) \<lparr>blockchain = chain_abc, information = []\<rparr> =
       (\<lparr>blockchain = rev chain_abc,
         information = [(''c'', Valid), (''b'', Valid), (''a'', Valid)]\<rparr>,
        Response 200 (SuccessInformation [(''c'', Valid), (''b'', Valid), (''a'', Valid)]))"
proof -
  let ?st = "\<lparr>blockchain = chain_abc, information = []\<rparr> :: (sym_hash, sym_mac) state"
  have ne: "blockchain ?st \<noteq> []" by (simp add: chain_abc_blocks)
  have ins: "inspect sym the_verifier (blockchain ?st)
       = Inr (map (\<lambda>b. \<lparr>block = b, status = Valid\<rparr>) chain_abc)"
    by (simp add: inspect_chain_abc)
  from information_stores_reversed_output [where inspect_chain = "inspect sym" and st = ?st, OF ne ins]
    ne ins show ?thesis
    by (simp add: chain_abc_blocks)
qed

section \<open>Single-point tamper (C2)\<close>

text \<open>
  Claim C2. Take a valid chain and mutate the data of block \<open>k\<close> in place, leaving its hash
  and signature as they were. With a collision-free digest, inspection succeeds and yields
  status \<open>Valid\<close> at every index below \<open>k\<close>, \<open>Tampered\<close> at \<open>k\<close> and \<open>Recovered\<close> at every
  index above \<open>k\<close>; the data strings are those of the mutated chain; the emitted chain is
  valid again; the hash and signature of block \<open>k\<close> are recomputed over the new data; and the
  previous hash of block \<open>k + 1\<close> is the new hash of block \<open>k\<close>.
\<close>

theorem single_point_tamper:
  assumes cf: "collision_free cfg"
    and valid: "valid_chain cfg v chain"
    and k: "k < length chain"
    and nd: "newData \<noteq> data (chain ! k)"
  shows "\<exists>out. inspect cfg v (mutate k newData chain) = Inr out
           \<and> map status out = replicate k Valid @ Tampered # replicate (length chain - Suc k) Recovered
           \<and> map (\<lambda>bi. data (block bi)) out = map data (mutate k newData chain)
           \<and> valid_chain cfg v (map block out)
           \<and> hash (block (out ! k)) =
               Digest cfg (index (chain ! k)) (timestamp (chain ! k)) newData (previousHash (chain ! k))
           \<and> signature (block (out ! k)) = KeyedMAC cfg (secret v) (hash (block (out ! k)))
           \<and> (Suc k < length chain \<longrightarrow>
                previousHash (block (out ! Suc k)) = hash (block (out ! k)))"
proof -
  let ?c = "mutate k newData chain"
  let ?out = "walk cfg v (sentinel cfg) ?c"
  from valid have lk: "linked cfg v 0 (sentinel cfg) chain" by (simp add: valid_chain_def)
  from linked_index [OF lk] have idx: "map index ?c = [0..<length ?c]"
    by (simp add: mutate_index mutate_length)
  then have ins: "inspect cfg v ?c = Inr ?out" by (simp add: inspect_def)
  have st: "map status ?out = replicate k Valid @ Tampered # replicate (length chain - Suc k) Recovered"
    by (rule walk_mutate [OF cf lk k nd])
  have dt: "map (\<lambda>bi. data (block bi)) ?out = map data ?c" by (rule walk_data)
  from idx have "linked cfg v 0 (sentinel cfg) (map block ?out)"
    using walk_output_linked [of ?c 0 cfg v "sentinel cfg"] by simp
  then have vo: "valid_chain cfg v (map block ?out)" by (simp add: valid_chain_def)
  have bk: "block (?out ! k) = repair cfg v (previousHash (chain ! k)) ((chain ! k)\<lparr>data := newData\<rparr>)"
    by (rule walk_mutate_block [OF cf lk k nd])
  have hk: "hash (block (?out ! k)) =
      Digest cfg (index (chain ! k)) (timestamp (chain ! k)) newData (previousHash (chain ! k))"
    by (simp add: bk repair_def Let_def)
  have sk: "signature (block (?out ! k)) = KeyedMAC cfg (secret v) (hash (block (?out ! k)))"
    by (simp add: bk repair_def Let_def)
  have nx: "Suc k < length chain \<longrightarrow> previousHash (block (?out ! Suc k)) = hash (block (?out ! k))"
  proof
    assume s: "Suc k < length chain"
    have "previousHash (map block ?out ! Suc k) = hash (map block ?out ! k)"
      using vo s by (intro linked_step [of cfg v 0 "sentinel cfg"]) (simp_all add: valid_chain_def walk_length mutate_length)
    with s show "previousHash (block (?out ! Suc k)) = hash (block (?out ! k))"
      by (simp add: walk_length mutate_length)
  qed
  from ins st dt vo hk sk nx show ?thesis by blast
qed

text \<open>
  The concrete scenario: the chain \<open>a\<close>, \<open>b\<close>, \<open>c\<close> with block 1 mutated to \<open>B\<close>.
\<close>

theorem single_point_tamper_witness:
  "collision_free sym \<and> valid_chain sym the_verifier chain_abc \<and> 1 < length chain_abc
   \<and> ''B'' \<noteq> data (chain_abc ! 1)
   \<and> (\<exists>out. inspect sym the_verifier (mutate 1 ''B'' chain_abc) = Inr out
        \<and> map status out = [Valid, Tampered, Recovered]
        \<and> map (\<lambda>bi. data (block bi)) out = [''a'', ''B'', ''c'']
        \<and> hash (block (out ! 1)) = H 1 2 ''B'' (H 0 1 ''a'' Zero)
        \<and> signature (block (out ! 1)) = Mac SECRET_KEY (H 1 2 ''B'' (H 0 1 ''a'' Zero))
        \<and> previousHash (block (out ! 2)) = H 1 2 ''B'' (H 0 1 ''a'' Zero))"
proof -
  have len: "1 < length chain_abc" by (simp add: chain_abc_blocks)
  have nd: "''B'' \<noteq> data (chain_abc ! 1)" by (simp add: chain_abc_blocks)
  from single_point_tamper [OF collision_free_sym valid_chain_abc len nd]
  obtain out where o: "inspect sym the_verifier (mutate 1 ''B'' chain_abc) = Inr out"
    and s: "map status out = replicate 1 Valid @ Tampered # replicate (length chain_abc - Suc 1) Recovered"
    and d: "map (\<lambda>bi. data (block bi)) out = map data (mutate 1 ''B'' chain_abc)"
    and h: "hash (block (out ! 1)) =
               Digest sym (index (chain_abc ! 1)) (timestamp (chain_abc ! 1)) ''B'' (previousHash (chain_abc ! 1))"
    and g: "signature (block (out ! 1)) = KeyedMAC sym (secret the_verifier) (hash (block (out ! 1)))"
    and p: "Suc 1 < length chain_abc \<longrightarrow> previousHash (block (out ! Suc 1)) = hash (block (out ! 1))"
    by blast
  from s have s': "map status out = [Valid, Tampered, Recovered]" by (simp add: chain_abc_blocks)
  from d have d': "map (\<lambda>bi. data (block bi)) out = [''a'', ''B'', ''c'']"
    by (simp add: chain_abc_blocks mutate_def)
  from h have h': "hash (block (out ! 1)) = H 1 2 ''B'' (H 0 1 ''a'' Zero)"
    by (simp add: chain_abc_blocks sym_def)
  from g h' have g': "signature (block (out ! 1)) = Mac SECRET_KEY (H 1 2 ''B'' (H 0 1 ''a'' Zero))"
    by (simp add: sym_def the_verifier_def)
  from p h' have p': "previousHash (block (out ! 2)) = H 1 2 ''B'' (H 0 1 ''a'' Zero)"
    by (simp add: chain_abc_blocks numeral_2_eq_2)
  have ex: "\<exists>out. inspect sym the_verifier (mutate 1 ''B'' chain_abc) = Inr out
        \<and> map status out = [Valid, Tampered, Recovered]
        \<and> map (\<lambda>bi. data (block bi)) out = [''a'', ''B'', ''c'']
        \<and> hash (block (out ! 1)) = H 1 2 ''B'' (H 0 1 ''a'' Zero)
        \<and> signature (block (out ! 1)) = Mac SECRET_KEY (H 1 2 ''B'' (H 0 1 ''a'' Zero))
        \<and> previousHash (block (out ! 2)) = H 1 2 ''B'' (H 0 1 ''a'' Zero)"
    by (rule exI [of _ out]) (simp only: o s' d' h' g' p' simp_thms)
  from collision_free_sym valid_chain_abc len nd ex show ?thesis
    by (simp only: simp_thms)
qed

section \<open>Inspecting twice (C3)\<close>

text \<open>
  The statuses of a second inspection are not those of the first: on the chain \<open>a\<close>, \<open>b\<close>,
  \<open>c\<close> with block 1 mutated, the first pass reports \<open>Valid\<close>, \<open>Tampered\<close>, \<open>Recovered\<close> and
  the second pass reports \<open>Valid\<close> three times.
\<close>

theorem reinspect_statuses_counterexample:
  "statuses (inspect sym the_verifier (mutate 1 ''B'' chain_abc)) = Inr [Valid, Tampered, Recovered]
   \<and> statuses (reinspect sym the_verifier (mutate 1 ''B'' chain_abc)) = Inr [Valid, Valid, Valid]
   \<and> statuses (reinspect sym the_verifier (mutate 1 ''B'' chain_abc))
       \<noteq> statuses (inspect sym the_verifier (mutate 1 ''B'' chain_abc))"
  by (simp add: statuses_def reinspect_def inspect_def chain_abc_blocks mutate_def selfIntact_def
      repair_def sym_def the_verifier_def Let_def)

text \<open>
  Claim C3, amended. Whenever the inspector returns on a chain, inspecting the block
  sequence it produced returns too, with identical blocks and status \<open>Valid\<close> for every
  block.
\<close>

theorem reinspect_same_blocks_all_valid:
  assumes "inspect cfg v chain = Inr out"
  shows "reinspect cfg v chain = Inr (map (\<lambda>bi. \<lparr>block = block bi, status = Valid\<rparr>) out)"
proof -
  from assms have idx: "map index chain = [0..<length chain]"
    and out: "out = walk cfg v (sentinel cfg) chain"
    by (auto simp: inspect_def split: if_splits)
  have idx': "map index (map block out) = [0..<length (map block out)]"
    using idx walk_index [of cfg v "sentinel cfg" chain] by (simp add: out walk_length comp_def)
  have "linked cfg v 0 (sentinel cfg) (map block out)"
    using walk_output_linked [of chain 0 cfg v "sentinel cfg"] idx by (simp add: out)
  from walk_linked [OF this] idx' assms show ?thesis
    by (simp add: reinspect_def inspect_def)
qed

theorem reinspect_same_blocks_all_valid_witness:
  "inspect sym the_verifier (mutate 1 ''B'' chain_abc)
     = Inr (walk sym the_verifier Zero (mutate 1 ''B'' chain_abc))
   \<and> reinspect sym the_verifier (mutate 1 ''B'' chain_abc)
     = Inr (map (\<lambda>bi. \<lparr>block = block bi, status = Valid\<rparr>)
         (walk sym the_verifier Zero (mutate 1 ''B'' chain_abc)))"
proof -
  have ins: "inspect sym the_verifier (mutate 1 ''B'' chain_abc)
     = Inr (walk sym the_verifier Zero (mutate 1 ''B'' chain_abc))"
    by (simp add: inspect_def chain_abc_blocks mutate_def sym_def)
  from reinspect_same_blocks_all_valid [OF ins] ins show ?thesis
    by (simp only: simp_thms)
qed

text \<open>
  At the exposed interface the second of two consecutive requests inspects the chain the
  first one stored, which is reversed: on the chain \<open>a\<close>, \<open>b\<close>, \<open>c\<close> its indices are 2, 1, 0
  and the inspector rejects it.
\<close>

lemma second_information_on_reversed_chain:
  "api_information (inspect sym)
     (fst (api_information (inspect sym) \<lparr>blockchain = chain_abc, information = []\<rparr>)) =
   (\<lparr>blockchain = rev chain_abc, information = [(''c'', Valid), (''b'', Valid), (''a'', Valid)]\<rparr>,
    Response 400 (Failure ''MalformedChainError''))"
  by (simp only: information_chain_abc fst_conv)
     (simp add: api_information_def inspect_rev_chain_abc length_chain_abc)

section \<open>Creating a block (C4)\<close>

text \<open>
  The handler of \<^verbatim>\<open>POST /api/create\<close> hands the verifier the data alone. No method that
  is a function of the verifier, the time and the data makes the handler extend both the
  empty chain and the chain \<open>a\<close> as a factory invoked with the current tail would: the
  first needs a block of index 0, the second a block of index 1.
\<close>

theorem create_without_tail_counterexample:
  "\<not> (\<exists>m :: verifier \<Rightarrow> nat \<Rightarrow> string \<Rightarrow> error + (sym_hash, sym_mac) block.
        blockchain (fst (api_create m 2 \<lparr>blockchain = [], information = []\<rparr> ''b''))
          = extend sym the_verifier 2 ''b'' []
      \<and> blockchain (fst (api_create m 2
            \<lparr>blockchain = extend sym the_verifier 1 ''a'' [], information = []\<rparr> ''b''))
          = extend sym the_verifier 2 ''b'' (extend sym the_verifier 1 ''a'' []))"
proof
  assume "\<exists>m :: verifier \<Rightarrow> nat \<Rightarrow> string \<Rightarrow> error + (sym_hash, sym_mac) block.
        blockchain (fst (api_create m 2 \<lparr>blockchain = [], information = []\<rparr> ''b''))
          = extend sym the_verifier 2 ''b'' []
      \<and> blockchain (fst (api_create m 2
            \<lparr>blockchain = extend sym the_verifier 1 ''a'' [], information = []\<rparr> ''b''))
          = extend sym the_verifier 2 ''b'' (extend sym the_verifier 1 ''a'' [])"
  then obtain m :: "verifier \<Rightarrow> nat \<Rightarrow> string \<Rightarrow> error + (sym_hash, sym_mac) block"
    where a: "blockchain (fst (api_create m 2 \<lparr>blockchain = [], information = []\<rparr> ''b''))
          = extend sym the_verifier 2 ''b'' []"
      and b: "blockchain (fst (api_create m 2
            \<lparr>blockchain = extend sym the_verifier 1 ''a'' [], information = []\<rparr> ''b''))
          = extend sym the_verifier 2 ''b'' (extend sym the_verifier 1 ''a'' [])"
    by blast
  show False
  proof (cases "m the_verifier 2 ''b''")
    case (Inl e)
    with a show False
      by (simp add: api_create_def extend_def createBlock_def sym_def Let_def)
  next
    case (Inr blk)
    from a Inr have "index blk = 0"
      by (simp add: api_create_def extend_def createBlock_def sym_def Let_def)
    moreover from b Inr have "index blk = 1"
      by (simp add: api_create_def extend_a) (simp add: extend_def createBlock_def sym_def Let_def)
    ultimately show False by simp
  qed
qed

text \<open>
  Claim C4, amended. The handler invokes \<^verbatim>\<open>create_block\<close> with the caller-supplied data
  alone. When the method returns a block, the stored blockchain grows by exactly that block,
  appended by the handler, and the response carries it; the stored information is never
  changed; and the response does not depend on the stored chain.
\<close>

theorem create_appends_returned_block:
  "(create_block the_verifier now d = Inr b \<longrightarrow>
      api_create create_block now st d =
        (st\<lparr>blockchain := blockchain st @ [b]\<rparr>, Response 200 (SuccessBlock b)))
   \<and> information (fst (api_create create_block now st d)) = information st
   \<and> snd (api_create create_block now (st\<lparr>blockchain := chain\<rparr>) d)
       = snd (api_create create_block now st d)"
  by (simp add: api_create_def split: sum.splits)

theorem create_appends_returned_block_witness:
  "create_block_method sym the_verifier 2 ''b'' =
      Inr \<lparr>index = 0, timestamp = 2, data = ''b'', previousHash = Zero, hash = H 0 2 ''b'' Zero,
           signature = Mac SECRET_KEY (H 0 2 ''b'' Zero)\<rparr>
   \<and> api_create (create_block_method sym) 2
        \<lparr>blockchain = extend sym the_verifier 1 ''a'' [], information = []\<rparr> ''b'' =
       (\<lparr>blockchain = extend sym the_verifier 1 ''a'' [] @
           [\<lparr>index = 0, timestamp = 2, data = ''b'', previousHash = Zero, hash = H 0 2 ''b'' Zero,
             signature = Mac SECRET_KEY (H 0 2 ''b'' Zero)\<rparr>],
         information = []\<rparr>,
        Response 200 (SuccessBlock
          \<lparr>index = 0, timestamp = 2, data = ''b'', previousHash = Zero, hash = H 0 2 ''b'' Zero,
            signature = Mac SECRET_KEY (H 0 2 ''b'' Zero)\<rparr>))"
proof -
  have m: "create_block_method sym the_verifier 2 ''b'' =
      Inr \<lparr>index = 0, timestamp = 2, data = ''b'', previousHash = Zero, hash = H 0 2 ''b'' Zero,
           signature = Mac SECRET_KEY (H 0 2 ''b'' Zero)\<rparr>"
    by (simp add: create_block_method_def createBlock_def sym_def the_verifier_def Let_def)
  from create_appends_returned_block [where create_block = "create_block_method sym" and now = 2
      and d = "''b''" and st = "\<lparr>blockchain = extend sym the_verifier 1 ''a'' [], information = []\<rparr>"
      and b = "\<lparr>index = 0, timestamp = 2, data = ''b'', previousHash = Zero, hash = H 0 2 ''b'' Zero,
           signature = Mac SECRET_KEY (H 0 2 ''b'' Zero)\<rparr>"] m
  show ?thesis by simp
qed

section \<open>The empty chain (C5)\<close>

text \<open>
  With an empty stored chain the handler of \<^verbatim>\<open>GET /api/information\<close> answers 404 with
  \<^verbatim>\<open>success: false\<close>, not a successful empty result.
\<close>

theorem information_empty_counterexample:
  "api_information (inspect sym) \<lparr>blockchain = [], information = []\<rparr> =
     (\<lparr>blockchain = [], information = []\<rparr>, Response 404 (Failure ''No blocks found''))
   \<and> snd (api_information (inspect sym) \<lparr>blockchain = [], information = []\<rparr>)
       \<noteq> Response 200 (SuccessInformation [])"
  by (simp add: api_information_def)

text \<open>
  Claim C5, amended. Inspecting an empty chain returns the empty sequence without error.
  When the stored blockchain is empty, the handler of \<^verbatim>\<open>GET /api/information\<close> does not
  call the inspector: it answers 404 with the error \<^verbatim>\<open>No blocks found\<close> and leaves the
  stored state unchanged.
\<close>

theorem inspect_empty_and_information_empty:
  "inspect cfg v [] = Inr []
   \<and> (blockchain st = [] \<longrightarrow>
        api_information inspect_chain st = (st, Response 404 (Failure ''No blocks found'')))"
  by (simp add: inspect_def api_information_def)

theorem inspect_empty_and_information_empty_witness:
  "inspect sym the_verifier [] = Inr []
   \<and> blockchain (\<lparr>blockchain = [], information = [(''a'', Valid)]\<rparr> :: (sym_hash, sym_mac) state) = []
   \<and> api_information (inspect sym) \<lparr>blockchain = [], information = [(''a'', Valid)]\<rparr> =
       (\<lparr>blockchain = [], information = [(''a'', Valid)]\<rparr>, Response 404 (Failure ''No blocks found''))"
  using inspect_empty_and_information_empty [where cfg = sym and v = the_verifier
      and inspect_chain = "inspect sym"
      and st = "\<lparr>blockchain = [], information = [(''a'', Valid)]\<rparr>"]
  by simp

section \<open>Errors of the verifier (C6)\<close>

text \<open>
  Claim C6. If \<^verbatim>\<open>verifier.create_block\<close> throws in \<^verbatim>\<open>POST /api/create\<close>, or
  \<^verbatim>\<open>verifier.information\<close> throws in \<^verbatim>\<open>GET /api/information\<close> (which calls it on a
  non-empty stored chain only), the stored blockchain and the stored information are left
  exactly as they were and the response is 400 with \<^verbatim>\<open>success: false\<close> and the error's
  message.
\<close>

theorem errors_leave_state_unchanged:
  "(create_block the_verifier now d = Inl e \<longrightarrow>
      api_create create_block now st d = (st, Response 400 (Failure (toString e))))
   \<and> (blockchain st \<noteq> [] \<and> inspect_chain the_verifier (blockchain st) = Inl e' \<longrightarrow>
      api_information inspect_chain st = (st, Response 400 (Failure (toString e'))))"
  by (simp add: api_create_def api_information_def)

text \<open>
  Empty data is rejected by the factory; the reversed chain \<open>c\<close>, \<open>b\<close>, \<open>a\<close> is rejected
  by the inspector.
\<close>

theorem errors_leave_state_unchanged_witness:
  "create_block_method sym the_verifier 4 '''' = Inl InvalidInputError
   \<and> api_create (create_block_method sym) 4 \<lparr>blockchain = chain_abc, information = []\<rparr> ''''
       = (\<lparr>blockchain = chain_abc, information = []\<rparr>, Response 400 (Failure ''InvalidInputError''))
   \<and> blockchain \<lparr>blockchain = rev chain_abc, information = []\<rparr> \<noteq> []
   \<and> inspect sym the_verifier (blockchain \<lparr>blockchain = rev chain_abc, information = []\<rparr>)
       = Inl MalformedChainError
   \<and> api_information (inspect sym) \<lparr>blockchain = rev chain_abc, information = []\<rparr>
       = (\<lparr>blockchain = rev chain_abc, information = []\<rparr>, Response 400 (Failure ''MalformedChainError''))"
proof -
  have c: "create_block_method sym the_verifier 4 '''' = Inl InvalidInputError"
    by (simp add: create_block_method_def createBlock_def)
  have ne: "blockchain (\<lparr>blockchain = rev chain_abc, information = []\<rparr> :: (sym_hash, sym_mac) state) \<noteq> []"
    by (simp add: chain_abc_blocks)
  have i: "inspect sym the_verifier (blockchain \<lparr>blockchain = rev chain_abc, information = []\<rparr>)
       = Inl MalformedChainError"
    by (simp add: inspect_rev_chain_abc)
  from errors_leave_state_unchanged [where create_block = "create_block_method sym" and now = 4
      and d = "''''" and e = InvalidInputError and inspect_chain = "inspect sym"
      and e' = MalformedChainError
      and st = "\<lparr>blockchain = chain_abc, information = []\<rparr>"]
    errors_leave_state_unchanged [where create_block = "create_block_method sym" and now = 4
      and d = "''''" and e = InvalidInputError and inspect_chain = "inspect sym"
      and e' = MalformedChainError
      and st = "\<lparr>blockchain = rev chain_abc, information = []\<rparr>"]
    c ne i
  show ?thesis by simp
qed

section \<open>The status enumeration (C7)\<close>

text \<open>
  Claim C7. For every non-empty stored chain on which the inspector returns, the client
  receives from \<^verbatim>\<open>GET /api/information\<close> one entry per block, in the handler's order,
  with the data string and the number of the status the inspector gave the block; under the
  client's enum every such number denotes that very status and is coloured by its branch of
  \<^verbatim>\<open>getStatusColor\<close>, never by the default. The numbers on the wire are \<open>Recovered = 0\<close>,
  \<open>Valid = 1\<close>, \<open>Tampered = 2\<close>, the same as the client's, and a status is exactly one of these
  three values.
\<close>

theorem status_wire_encoding:
  assumes "blockchain st \<noteq> []"
    and "inspect_chain the_verifier (blockchain st) = Inr out"
  shows "fetchInformation (snd (api_information inspect_chain st))
           = Some (rev (map (\<lambda>bi. (data (block bi), wire_ordinal (status bi))) out))
     \<and> map (\<lambda>(d, n). Status_of_ordinal n)
           (rev (map (\<lambda>bi. (data (block bi), wire_ordinal (status bi))) out))
         = rev (map (\<lambda>bi. Some (status bi)) out)
     \<and> map (\<lambda>(d, n). getStatusColor n)
           (rev (map (\<lambda>bi. (data (block bi), wire_ordinal (status bi))) out))
         = rev (map (\<lambda>bi. case status bi of
                             Recovered \<Rightarrow> ''bg-green-100 border-green-500''
                           | Valid \<Rightarrow> ''bg-blue-100 border-blue-500''
                           | Tampered \<Rightarrow> ''bg-red-100 border-red-500'') out)
     \<and> wire_ordinal Recovered = 0 \<and> wire_ordinal Valid = 1 \<and> wire_ordinal Tampered = 2
     \<and> wire_ordinal s = Status_ordinal s
     \<and> (s = Recovered \<or> s = Valid \<or> s = Tampered)"
proof -
  have f: "fetchInformation (snd (api_information inspect_chain st))
           = Some (rev (map (\<lambda>bi. (data (block bi), wire_ordinal (status bi))) out))"
    using assms
    by (simp add: api_information_def fetchInformation_def wire_information_def Let_def rev_map
        comp_def)
  have c: "getStatusColor (wire_ordinal t) =
      (case t of Recovered \<Rightarrow> ''bg-green-100 border-green-500''
               | Valid \<Rightarrow> ''bg-blue-100 border-blue-500''
               | Tampered \<Rightarrow> ''bg-red-100 border-red-500'')" for t
    by (cases t) (simp_all add: wire_ordinal_values getStatusColor_def)
  have e: "s = Recovered \<or> s = Valid \<or> s = Tampered" by (cases s) simp_all
  have d: "map (\<lambda>(d, n). Status_of_ordinal n)
           (rev (map (\<lambda>bi. (data (block bi), wire_ordinal (status bi))) out))
         = rev (map (\<lambda>bi. Some (status bi)) out)"
    by (simp add: rev_map comp_def decode_wire)
  have g: "map (\<lambda>(d, n). getStatusColor n)
           (rev (map (\<lambda>bi. (data (block bi), wire_ordinal (status bi))) out))
         = rev (map (\<lambda>bi. case status bi of
                             Recovered \<Rightarrow> ''bg-green-100 border-green-500''
                           | Valid \<Rightarrow> ''bg-blue-100 border-blue-500''
                           | Tampered \<Rightarrow> ''bg-red-100 border-red-500'') out)"
    by (simp add: rev_map comp_def c)
  from f d g e wire_ordinal_values wire_ordinal_client [of s] show ?thesis
    by (simp only: simp_thms)
qed

text \<open>
  The chain \<open>a\<close>, \<open>b\<close>, \<open>c\<close> with block 1 mutated to \<open>B\<close>: the client receives \<open>c\<close> with 0,
  \<open>B\<close> with 2 and \<open>a\<close> with 1.
\<close>

theorem status_wire_encoding_witness:
  "blockchain \<lparr>blockchain = mutate 1 ''B'' chain_abc, information = []\<rparr> \<noteq> []
   \<and> statuses (inspect sym the_verifier
        (blockchain \<lparr>blockchain = mutate 1 ''B'' chain_abc, information = []\<rparr>))
       = Inr [Valid, Tampered, Recovered]
   \<and> fetchInformation (snd (api_information (inspect sym)
        \<lparr>blockchain = mutate 1 ''B'' chain_abc, information = []\<rparr>))
       = Some [(''c'', 0), (''B'', 2), (''a'', 1)]"
proof -
  let ?st = "\<lparr>blockchain = mutate 1 ''B'' chain_abc, information = []\<rparr> :: (sym_hash, sym_mac) state"
  let ?out = "walk sym the_verifier Zero (mutate 1 ''B'' chain_abc)"
  have ne: "blockchain ?st \<noteq> []" by (simp add: mutate_def chain_abc_blocks)
  have ins: "inspect sym the_verifier (blockchain ?st) = Inr ?out"
    by (simp add: inspect_def chain_abc_blocks mutate_def sym_def)
  have w: "rev (map (\<lambda>bi. (data (block bi), wire_ordinal (status bi))) ?out)
      = [(''c'', 0), (''B'', 2), (''a'', 1)]"
    by (simp add: chain_abc_blocks mutate_def selfIntact_def repair_def sym_def the_verifier_def
        Let_def wire_ordinal_values)
  have s: "statuses (inspect sym the_verifier (blockchain ?st)) = Inr [Valid, Tampered, Recovered]"
    by (simp add: statuses_def inspect_def chain_abc_blocks mutate_def selfIntact_def
        repair_def sym_def the_verifier_def Let_def)
  from status_wire_encoding [where inspect_chain = "inspect sym" and st = ?st, OF ne ins]
  have "fetchInformation (snd (api_information (inspect sym) ?st))
      = Some (rev (map (\<lambda>bi. (data (block bi), wire_ordinal (status bi))) ?out))"
    by (simp only: simp_thms)
  with w ne s show ?thesis by (simp only: simp_thms)
qed

section \<open>Tampering (C8, C10)\<close>

text \<open>
  Claim C8. For every in-range index the handler of \<^verbatim>\<open>POST /api/tamper\<close> answers with
  success, sets the data of the block at that index to the new data, and leaves unchanged
  the other fields of that block, the length of the chain, every other block, and the stored
  information.
\<close>

theorem tamper_changes_only_data:
  assumes "0 \<le> i" and "i < int (length (blockchain st))"
  shows "snd (api_tamper st i newData) = Response 200 Success
     \<and> length (blockchain (fst (api_tamper st i newData))) = length (blockchain st)
     \<and> data (blockchain (fst (api_tamper st i newData)) ! nat i) = newData
     \<and> index (blockchain (fst (api_tamper st i newData)) ! nat i) = index (blockchain st ! nat i)
     \<and> timestamp (blockchain (fst (api_tamper st i newData)) ! nat i) = timestamp (blockchain st ! nat i)
     \<and> previousHash (blockchain (fst (api_tamper st i newData)) ! nat i)
         = previousHash (blockchain st ! nat i)
     \<and> hash (blockchain (fst (api_tamper st i newData)) ! nat i) = hash (blockchain st ! nat i)
     \<and> signature (blockchain (fst (api_tamper st i newData)) ! nat i)
         = signature (blockchain st ! nat i)
     \<and> (\<forall>j. j \<noteq> nat i \<longrightarrow>
           blockchain (fst (api_tamper st i newData)) ! j = blockchain st ! j)
     \<and> information (fst (api_tamper st i newData)) = information st"
  using assms by (simp add: api_tamper_def Let_def)

theorem tamper_changes_only_data_witness:
  "(0::int) \<le> 1 \<and> 1 < int (length (blockchain \<lparr>blockchain = chain_abc, information = [(''a'', Valid)]\<rparr>))
   \<and> api_tamper \<lparr>blockchain = chain_abc, information = [(''a'', Valid)]\<rparr> 1 ''B''
       = (\<lparr>blockchain = [chain_abc ! 0, (chain_abc ! 1)\<lparr>data := ''B''\<rparr>, chain_abc ! 2],
           information = [(''a'', Valid)]\<rparr>, Response 200 Success)
   \<and> hash (blockchain (fst (api_tamper \<lparr>blockchain = chain_abc, information = [(''a'', Valid)]\<rparr> 1 ''B'')) ! 1)
       = H 1 2 ''b'' (H 0 1 ''a'' Zero)"
proof -
  let ?st = "\<lparr>blockchain = chain_abc, information = [(''a'', Valid)]\<rparr>"
  have a: "(0::int) \<le> 1" by simp
  have b: "1 < int (length (blockchain ?st))" by (simp add: length_chain_abc)
  from tamper_changes_only_data [OF a b, of "''B''"]
  have h: "hash (blockchain (fst (api_tamper ?st 1 ''B'')) ! 1) = hash (blockchain ?st ! 1)"
    by simp
  have e: "api_tamper ?st 1 ''B''
       = (\<lparr>blockchain = [chain_abc ! 0, (chain_abc ! 1)\<lparr>data := ''B''\<rparr>, chain_abc ! 2],
           information = [(''a'', Valid)]\<rparr>, Response 200 Success)"
    by (simp add: api_tamper_def chain_abc_blocks)
  from h have "hash (blockchain (fst (api_tamper ?st 1 ''B'')) ! 1) = H 1 2 ''b'' (H 0 1 ''a'' Zero)"
    by (simp add: chain_abc_blocks)
  with a b e show ?thesis by (simp only: simp_thms)
qed

text \<open>
  Claim C10. For every integer index that is negative or at least the length of the stored
  blockchain, the handler of \<^verbatim>\<open>POST /api/tamper\<close> answers 400 with \<^verbatim>\<open>success: false\<close>
  and the error \<^verbatim>\<open>Invalid block index\<close>, and leaves the stored state unchanged.
\<close>

theorem tamper_rejects_invalid_index:
  "i < 0 \<or> int (length (blockchain st)) \<le> i \<Longrightarrow>
   api_tamper st i newData = (st, Response 400 (Failure ''Invalid block index''))"
  by (auto simp: api_tamper_def)

theorem tamper_rejects_invalid_index_witness:
  "((-1::int) < 0 \<or> int (length (blockchain \<lparr>blockchain = chain_abc, information = []\<rparr>)) \<le> -1)
   \<and> api_tamper \<lparr>blockchain = chain_abc, information = []\<rparr> (-1) ''B''
       = (\<lparr>blockchain = chain_abc, information = []\<rparr>, Response 400 (Failure ''Invalid block index''))
   \<and> ((3::int) < 0 \<or> int (length (blockchain \<lparr>blockchain = chain_abc, information = []\<rparr>)) \<le> 3)
   \<and> api_tamper \<lparr>blockchain = chain_abc, information = []\<rparr> 3 ''B''
       = (\<lparr>blockchain = chain_abc, information = []\<rparr>, Response 400 (Failure ''Invalid block index''))"
proof -
  let ?st = "\<lparr>blockchain = chain_abc, information = []\<rparr>"
  have a: "(-1::int) < 0 \<or> int (length (blockchain ?st)) \<le> -1" by simp
  have b: "(3::int) < 0 \<or> int (length (blockchain ?st)) \<le> 3" by (simp add: length_chain_abc)
  from tamper_rejects_invalid_index [OF a, of "''B''"] tamper_rejects_invalid_index [OF b, of "''B''"] a b
  show ?thesis by (simp only: simp_thms)
qed

section \<open>The secret (C9)\<close>



end
